theory Spec2Isabelle
  imports Complex_Main "HOL-Library.AList" "HOL-Library.Multiset"
begin

section \<open>Data model of the party movie service\<close>

text \<open>
  The service scores the swipes of every party member with an Elo-style update and
  merges the per-member ratings into one rating per movie. JavaScript numbers are
  modelled as the reals they denote. The scorer is given twice: first with exact
  arithmetic, for the properties that no rounding touches, and then with the rounding
  operations of the IEEE-754 doubles, for the order of the swipes, where several additions
  follow one another. NaN and the infinities are outside this model.
\<close>

text \<open>
  The interface \<^verbatim>\<open>PartyMovie\<close>. Its field \<^verbatim>\<open>id\<close> is called \<open>row_id\<close> here
  (\<open>id\<close> is the identity function of HOL).
\<close>

record PartyMovie =
  row_id :: string
  party_id :: string
  movie_id :: string
  title :: string
  genres :: "string list"
  expected_score :: real
  elo_rating :: real
  total_swipes :: int
  right_swipes :: int
  left_swipes :: int
  created_at :: string
  updated_at :: string

datatype direction = Left | Right

text \<open>An element of \<^verbatim>\<open>memberSwipes\<close>: \<^verbatim>\<open>{ movie_id; direction }\<close>.\<close>

record Swipe =
  swipe_movie_id :: string
  direction :: direction

text \<open>
  The value type of the map \<^verbatim>\<open>movieRatings\<close>: \<^verbatim>\<open>{ elo; expected_score; title }\<close>
  (fields prefixed with \<open>r_\<close>), and the element type of the result array,
  \<^verbatim>\<open>{ title; elo }\<close> (fields prefixed with \<open>e_\<close>).
\<close>

record MovieRating =
  r_elo :: real
  r_expected_score :: real
  r_title :: string

record EloEntry =
  e_title :: string
  e_elo :: real

section \<open>The member scorer: \<^verbatim>\<open>calculateMemberElo\<close>\<close>

definition K_FACTOR :: real where
  "K_FACTOR = 32"

definition BASE_ELO :: real where
  "BASE_ELO = 1200"

text \<open>
  A JavaScript \<^verbatim>\<open>Map\<close> iterates in the order in which its keys were first inserted,
  and \<^verbatim>\<open>set\<close> on a key that is present replaces the value where it stands. That is
  an association list with \<^const>\<open>AList.update\<close> as \<^verbatim>\<open>set\<close> and \<^const>\<open>map_of\<close>
  as \<^verbatim>\<open>get\<close>.
\<close>

text \<open>The first loop: every movie enters the map with the base rating.\<close>

definition initRatings :: "PartyMovie list \<Rightarrow> (string \<times> MovieRating) list" where
  "initRatings movies =
     fold (\<lambda>movie movieRatings.
             AList.update (movie_id movie)
               \<lparr>r_elo = BASE_ELO, r_expected_score = expected_score movie, r_title = title movie\<rparr>
               movieRatings)
          movies []"

definition actualScore :: "direction \<Rightarrow> real" where
  "actualScore d = (if d = Right then 1.0 else 0.0)"

text \<open>
  The body of the second loop. A swipe whose movie is not in the map is skipped
  (\<^verbatim>\<open>continue\<close>); otherwise the rating object found is updated in place.
\<close>

definition applySwipe :: "(string \<times> MovieRating) list \<Rightarrow> Swipe \<Rightarrow> (string \<times> MovieRating) list" where
  "applySwipe movieRatings swipe =
     (case map_of movieRatings (swipe_movie_id swipe) of
        None \<Rightarrow> movieRatings
      | Some movieRating \<Rightarrow>
          (let eloChange = K_FACTOR * (actualScore (direction swipe) - r_expected_score movieRating)
           in AList.update (swipe_movie_id swipe)
                (movieRating\<lparr>r_elo := r_elo movieRating + eloChange\<rparr>) movieRatings))"

definition applySwipes :: "(string \<times> MovieRating) list \<Rightarrow> Swipe list \<Rightarrow> (string \<times> MovieRating) list" where
  "applySwipes movieRatings memberSwipes = fold (\<lambda>swipe rs. applySwipe rs swipe) memberSwipes movieRatings"

definition calculateMemberElo :: "PartyMovie list \<Rightarrow> Swipe list \<Rightarrow> EloEntry list" where
  "calculateMemberElo movies memberSwipes =
     map (\<lambda>(k, m). \<lparr>e_title = r_title m, e_elo = r_elo m\<rparr>)
         (applySwipes (initRatings movies) memberSwipes)"

text \<open>The sum of the rating changes that the swipes on movie \<open>k\<close> cause, for prior \<open>e\<close>.\<close>

definition swipeDeltas :: "string \<Rightarrow> real \<Rightarrow> Swipe list \<Rightarrow> real" where
  "swipeDeltas k e memberSwipes =
     (\<Sum>s\<leftarrow>filter (\<lambda>s. swipe_movie_id s = k) memberSwipes. K_FACTOR * (actualScore (direction s) - e))"

section \<open>The member scorer in double arithmetic\<close>

text \<open>
  The numbers of the source are IEEE-754 doubles, and every \<^verbatim>\<open>+\<close>, \<^verbatim>\<open>-\<close> and
  \<^verbatim>\<open>*\<close> rounds its exact result to the nearest double, ties to the even significand.
  Where several additions follow one another the rounding matters, so the scorer is given
  a second time with the operations of the doubles. A finite double is the real number it
  denotes. \<open>toDouble\<close> rounds a real to 53 significant bits, with the fixed spacing
  \<open>2 ^ - 1074\<close> below \<open>2 ^ - 1022\<close> (the subnormal range); overflow to infinity, NaN
  and the sign of zero are outside this model.
\<close>

text \<open>The number of binary digits of a natural number.\<close>

fun bitLength :: "nat \<Rightarrow> nat" where
  "bitLength n = (if n = 0 then 0 else Suc (bitLength (n div 2)))"

declare bitLength.simps [simp del]

text \<open>The exponent \<open>e\<close> with \<open>2 ^ e \<le> \<bar>x\<bar> < 2 ^ (e + 1)\<close>, for \<open>x\<close> other than 0.\<close>

definition exponentOf :: "real \<Rightarrow> int" where
  "exponentOf x =
     (if 1 \<le> \<bar>x\<bar> then int (bitLength (nat \<lfloor>\<bar>x\<bar>\<rfloor>)) - 1
      else - int (bitLength (nat (\<lceil>1 / \<bar>x\<bar>\<rceil> - 1))))"

definition pow2 :: "int \<Rightarrow> real" where
  "pow2 e = (if 0 \<le> e then 2 ^ nat e else 1 / 2 ^ nat (- e))"

definition roundTiesToEven :: "real \<Rightarrow> int" where
  "roundTiesToEven q =
     (let f = \<lfloor>q\<rfloor>; d = q - of_int f
      in if d < 1 / 2 then f else if 1 / 2 < d then f + 1 else if even f then f else f + 1)"

definition toDouble :: "real \<Rightarrow> real" where
  "toDouble x =
     (let ulp = pow2 (max (exponentOf x) (- 1022) - 52)
      in of_int (roundTiesToEven (x / ulp)) * ulp)"

definition dadd :: "real \<Rightarrow> real \<Rightarrow> real" where
  "dadd x y = toDouble (x + y)"

definition dsub :: "real \<Rightarrow> real \<Rightarrow> real" where
  "dsub x y = toDouble (x - y)"

definition dmul :: "real \<Rightarrow> real \<Rightarrow> real" where
  "dmul x y = toDouble (x * y)"

text \<open>
  The body of the second loop, \<^verbatim>\<open>eloChange = K_FACTOR * (actualScore - expected_score)\<close>
  and \<^verbatim>\<open>movieRating.elo += eloChange\<close>, with the operations of the doubles. The first
  loop and the conversion to an array do no arithmetic and are as before.
\<close>

definition applySwipeDouble :: "(string \<times> MovieRating) list \<Rightarrow> Swipe \<Rightarrow> (string \<times> MovieRating) list" where
  "applySwipeDouble movieRatings swipe =
     (case map_of movieRatings (swipe_movie_id swipe) of
        None \<Rightarrow> movieRatings
      | Some movieRating \<Rightarrow>
          (let eloChange = dmul K_FACTOR (dsub (actualScore (direction swipe)) (r_expected_score movieRating))
           in AList.update (swipe_movie_id swipe)
                (movieRating\<lparr>r_elo := dadd (r_elo movieRating) eloChange\<rparr>) movieRatings))"

definition applySwipesDouble :: "(string \<times> MovieRating) list \<Rightarrow> Swipe list \<Rightarrow> (string \<times> MovieRating) list" where
  "applySwipesDouble movieRatings memberSwipes =
     fold (\<lambda>swipe rs. applySwipeDouble rs swipe) memberSwipes movieRatings"

definition calculateMemberEloDouble :: "PartyMovie list \<Rightarrow> Swipe list \<Rightarrow> EloEntry list" where
  "calculateMemberEloDouble movies memberSwipes =
     map (\<lambda>(k, m). \<lparr>e_title = r_title m, e_elo = r_elo m\<rparr>)
         (applySwipesDouble (initRatings movies) memberSwipes)"

section \<open>Normalising the member arrays in \<^verbatim>\<open>calculateAndStoreFinalRankings\<close>\<close>

text \<open>
  \<^verbatim>\<open>arr.sort((a, b) => a.title.localeCompare(b.title))\<close>. The comparator
  \<^verbatim>\<open>localeCompare\<close> belongs to the JavaScript runtime and depends on its locale, so
  it is a parameter here: a function that returns a negative number, zero or a positive
  number. \<^verbatim>\<open>Array.prototype.sort\<close> is stable, and for a consistent comparator its
  result is the one stable sorted arrangement, which inserting the elements from the right
  computes.
\<close>

fun insertByTitle :: "(string \<Rightarrow> string \<Rightarrow> int) \<Rightarrow> EloEntry \<Rightarrow> EloEntry list \<Rightarrow> EloEntry list" where
  "insertByTitle localeCompare a [] = [a]"
| "insertByTitle localeCompare a (b # bs) =
     (if localeCompare (e_title a) (e_title b) \<le> 0 then a # b # bs
      else b # insertByTitle localeCompare a bs)"

definition sortByTitle :: "(string \<Rightarrow> string \<Rightarrow> int) \<Rightarrow> EloEntry list \<Rightarrow> EloEntry list" where
  "sortByTitle localeCompare arr = foldr (insertByTitle localeCompare) arr []"

text \<open>
  What \<^verbatim>\<open>sort\<close> needs of its comparator: any two strings are comparable, and the
  comparison is transitive.
\<close>

definition consistentCompare :: "(string \<Rightarrow> string \<Rightarrow> int) \<Rightarrow> bool" where
  "consistentCompare localeCompare \<longleftrightarrow>
     (\<forall>a b. localeCompare a b \<le> 0 \<or> localeCompare b a \<le> 0) \<and>
     (\<forall>a b c. localeCompare a b \<le> 0 \<longrightarrow> localeCompare b c \<le> 0 \<longrightarrow> localeCompare a c \<le> 0)"

text \<open>
  \<^verbatim>\<open>new Set(xs)\<close>: the elements of \<open>xs\<close> in the order of their first occurrence.
\<close>

definition setAdd :: "'a \<Rightarrow> 'a list \<Rightarrow> 'a list" where
  "setAdd x s = (if x \<in> set s then s else s @ [x])"

definition newSet :: "'a list \<Rightarrow> 'a list" where
  "newSet xs = fold setAdd xs []"


text \<open>
  The body of the padding loop for one member's array: every title of \<open>allTitles\<close> that the
  array lacks is pushed with the base rating, in the order of \<open>allTitles\<close>, and the array
  is sorted again.
\<close>

definition padMemberArray ::
  "(string \<Rightarrow> string \<Rightarrow> int) \<Rightarrow> string list \<Rightarrow> EloEntry list \<Rightarrow> EloEntry list" where
  "padMemberArray localeCompare allTitles memberArray =
     (let memberTitles = newSet (map e_title memberArray)
      in sortByTitle localeCompare
           (memberArray @
            map (\<lambda>t. \<lparr>e_title = t, e_elo = BASE_ELO\<rparr>)
                (filter (\<lambda>t. t \<notin> set memberTitles) allTitles)))"

text \<open>
  The block ``ensure all arrays have the same movies'': \<open>allTitles\<close> is the set of the
  titles of the first array, and nothing happens when there is no array.
\<close>

definition normalizeMemberEloArrays ::
  "(string \<Rightarrow> string \<Rightarrow> int) \<Rightarrow> EloEntry list list \<Rightarrow> EloEntry list list" where
  "normalizeMemberEloArrays localeCompare memberEloArrays =
     (case memberEloArrays of
        [] \<Rightarrow> []
      | firstArray # _ \<Rightarrow>
          (let allTitles = newSet (map e_title firstArray)
           in map (padMemberArray localeCompare allTitles) memberEloArrays))"

section \<open>The rank aggregator \<^verbatim>\<open>checkAll\<close>\<close>

text \<open>
  Modelled from the spec: the module \<^verbatim>\<open>@/lib/elo_rating/compare_elo\<close> that defines
  \<^verbatim>\<open>checkAll\<close> is not among the sources; only the call
  \<^verbatim>\<open>checkAll(memberEloArrays)\<close> is. The specification describes the aggregator as taking
  the member vectors, all over the same ordered title set, and combining the ratings of each
  title into one value by a symmetric function, the arithmetic mean in its worked example.
  So the consensus vector has the titles of the first vector, in its order, each with the
  mean of all ratings that the vectors give that title.
\<close>

definition ratingsOfTitle :: "string \<Rightarrow> EloEntry list list \<Rightarrow> real list" where
  "ratingsOfTitle t vectors = concat (map (\<lambda>v. map e_elo (filter (\<lambda>m. e_title m = t) v)) vectors)"

definition checkAll :: "EloEntry list list \<Rightarrow> EloEntry list" where
  "checkAll vectors =
     (case vectors of
        [] \<Rightarrow> []
      | v # _ \<Rightarrow>
          map (\<lambda>m. \<lparr>e_title = e_title m,
                     e_elo = sum_list (ratingsOfTitle (e_title m) vectors)
                             / real (length (ratingsOfTitle (e_title m) vectors))\<rparr>) v)"

section \<open>Storing the final ratings\<close>

text \<open>
  \<^verbatim>\<open>new Map(aggregatedElos.map(m => [m.title, m.elo]))\<close>: of two entries with the same
  title the later one stays.
\<close>

definition eloMapOf :: "EloEntry list \<Rightarrow> (string \<rightharpoonup> real)" where
  "eloMapOf aggregatedElos = fold (\<lambda>m eloMap. eloMap(e_title m \<mapsto> e_elo m)) aggregatedElos Map.empty"

text \<open>
  The operator \<^verbatim>\<open>||\<close> on values that are a number or \<^verbatim>\<open>undefined\<close>/\<^verbatim>\<open>null\<close>
  (\<open>None\<close>): the left operand if it is truthy, that is a number other than 0, and the
  right operand otherwise.
\<close>

definition truthy :: "real option \<Rightarrow> bool" where
  "truthy v = (case v of None \<Rightarrow> False | Some x \<Rightarrow> x \<noteq> 0)"

definition js_or :: "real option \<Rightarrow> real option \<Rightarrow> real option" where
  "js_or a b = (if truthy a then a else b)"

text \<open>
  \<^verbatim>\<open>eloMap.get(movie.title) || movie.elo_rating || 1200\<close>, as a function of the two
  values read. The chain ends in a number, so its value is a number.
\<close>

definition finalElo :: "real option \<Rightarrow> real option \<Rightarrow> real" where
  "finalElo aggregated existing =
     (case js_or (js_or aggregated existing) (Some 1200) of Some x \<Rightarrow> x | None \<Rightarrow> 1200)"

text \<open>
  The last loop issues one update per movie of the list read at the start:
  \<^verbatim>\<open>update({ elo_rating: finalElo })\<close> for the rows with the movie's \<^verbatim>\<open>movie_id\<close>.
  The model returns these updates in order, as pairs of movie id and rating written.
\<close>

definition storeFinalElos :: "EloEntry list \<Rightarrow> PartyMovie list \<Rightarrow> (string \<times> real) list" where
  "storeFinalElos aggregatedElos movies =
     (let eloMap = eloMapOf aggregatedElos
      in map (\<lambda>movie. (movie_id movie, finalElo (eloMap (title movie)) (Some (elo_rating movie)))) movies)"

section \<open>Reading the ranking: \<^verbatim>\<open>getPartyRankings\<close>\<close>

text \<open>
  The function sends the query
  \<^verbatim>\<open>select('*').eq('party_id', partyId).order('elo_rating', { ascending: false })\<close>
  to the database and works on the reply, \<^verbatim>\<open>{ data, error }\<close>: the rows, or
  \<^verbatim>\<open>null\<close>, and the error, or \<^verbatim>\<open>null\<close>.
\<close>

record QueryReply =
  data :: "PartyMovie list option"
  error :: "string option"

text \<open>
  An error is thrown as an \<^verbatim>\<open>Error\<close> with its message; otherwise
  \<^verbatim>\<open>data || []\<close> is returned, the rows as they came.
\<close>

definition getPartyRankings :: "QueryReply \<Rightarrow> string + PartyMovie list" where
  "getPartyRankings reply =
     (case error reply of
        Some message \<Rightarrow> Inl (''Failed to get party rankings: '' @ message)
      | None \<Rightarrow> Inr (case data reply of Some rows \<Rightarrow> rows | None \<Rightarrow> []))"

text \<open>
  What the query asks of the database, and all that is known of its answer: the rows of
  the party in the table, each once, with ratings that do not increase along the list. The
  query names no second sort key, so nothing is known of the order of rows with equal
  ratings.
\<close>

definition answersRankingQuery :: "PartyMovie list \<Rightarrow> string \<Rightarrow> PartyMovie list \<Rightarrow> bool" where
  "answersRankingQuery party_movies partyId rows \<longleftrightarrow>
     mset rows = mset (filter (\<lambda>row. party_id row = partyId) party_movies) \<and>
     sorted_wrt (\<lambda>a b. elo_rating a \<ge> elo_rating b) rows"

section \<open>A comparator by character codes\<close>

text \<open>
  A comparator that does not depend on a locale: the lexicographic order of the character
  codes. It is a consistent comparator and serves as the instance in the examples.
\<close>

fun codeUnitCompare :: "string \<Rightarrow> string \<Rightarrow> int" where
  "codeUnitCompare [] [] = 0"
| "codeUnitCompare [] (y # ys) = - 1"
| "codeUnitCompare (x # xs) [] = 1"
| "codeUnitCompare (x # xs) (y # ys) =
     (if (of_char x :: nat) < of_char y then - 1
      else if (of_char y :: nat) < of_char x then 1
      else codeUnitCompare xs ys)"

section \<open>Example data\<close>

text \<open>The two candidates of the end-to-end scenario: titles A and B, priors 0.5 and 0.8.\<close>

definition movieA :: PartyMovie where
  "movieA = \<lparr>row_id = ''1'', party_id = ''p'', movie_id = ''a'', title = ''A'', genres = [],
     expected_score = 0.5, elo_rating = 1200, total_swipes = 0, right_swipes = 0, left_swipes = 0,
     created_at = '''', updated_at = ''''\<rparr>"

definition movieB :: PartyMovie where
  "movieB = \<lparr>row_id = ''2'', party_id = ''p'', movie_id = ''b'', title = ''B'', genres = [],
     expected_score = 0.8, elo_rating = 1200, total_swipes = 0, right_swipes = 0, left_swipes = 0,
     created_at = '''', updated_at = ''''\<rparr>"

text \<open>
  Member arrays over these titles: the ratings of a member who accepted A and rejected B,
  and those of a member who rejected A and did not swipe B.
\<close>

definition member1Array :: "EloEntry list" where
  "member1Array = [\<lparr>e_title = ''A'', e_elo = 1216\<rparr>, \<lparr>e_title = ''B'', e_elo = 1174.4\<rparr>]"

definition member2Padded :: "EloEntry list" where
  "member2Padded = [\<lparr>e_title = ''A'', e_elo = 1184\<rparr>, \<lparr>e_title = ''B'', e_elo = 1200\<rparr>]"

text \<open>
  A candidate whose prior is the double that the literal \<^verbatim>\<open>0.919\<close> denotes, and a left
  and a right swipe on it.
\<close>

definition movieM :: PartyMovie where
  "movieM = \<lparr>row_id = ''3'', party_id = ''p'', movie_id = ''m'', title = ''M'', genres = [],
     expected_score = toDouble 0.919, elo_rating = 1200, total_swipes = 0, right_swipes = 0,
     left_swipes = 0, created_at = [], updated_at = []\<rparr>"

definition swipeL :: Swipe where
  "swipeL = \<lparr>swipe_movie_id = ''m'', direction = Left\<rparr>"

definition swipeR :: Swipe where
  "swipeR = \<lparr>swipe_movie_id = ''m'', direction = Right\<rparr>"

section \<open>Properties of the member scorer\<close>

subsection \<open>The map after the first loop\<close>

lemma fold_update_keys_distinct:
  "distinct (map fst acc) \<Longrightarrow>
   distinct (map fst (fold (\<lambda>movie rs. AList.update (movie_id movie) (f movie) rs) movies acc))"
  by (induction movies arbitrary: acc) (simp_all add: distinct_update)

lemma initRatings_distinct: "distinct (map fst (initRatings movies))"
  unfolding initRatings_def by (rule fold_update_keys_distinct) simp

lemma fold_update_keys_set:
  "fst ` set (fold (\<lambda>movie rs. AList.update (movie_id movie) (f movie) rs) movies acc)
     = fst ` set acc \<union> movie_id ` set movies"
  by (induction movies arbitrary: acc) (auto simp: dom_update)

lemma initRatings_keys: "fst ` set (initRatings movies) = movie_id ` set movies"
  unfolding initRatings_def by (simp add: fold_update_keys_set)

lemma fold_update_base:
  "\<forall>p \<in> set acc. r_elo (snd p) = BASE_ELO \<Longrightarrow>
   \<forall>p \<in> set (fold (\<lambda>movie rs. AList.update (movie_id movie)
        \<lparr>r_elo = BASE_ELO, r_expected_score = expected_score movie, r_title = title movie\<rparr> rs) movies acc).
      r_elo (snd p) = BASE_ELO"
proof (induction movies arbitrary: acc)
  case Nil
  then show ?case by simp
next
  case (Cons movie movies)
  have "set (AList.update k v acc) \<subseteq> insert (k, v) (set acc)" for k and v :: MovieRating
    by (induction acc) auto
  with Cons.prems have "\<forall>p \<in> set (AList.update (movie_id movie)
        \<lparr>r_elo = BASE_ELO, r_expected_score = expected_score movie, r_title = title movie\<rparr> acc).
      r_elo (snd p) = BASE_ELO"
    by fastforce
  from Cons.IH [OF this] show ?case by simp
qed

lemma initRatings_base: "p \<in> set (initRatings movies) \<Longrightarrow> r_elo (snd p) = BASE_ELO"
  using fold_update_base [of "[]" movies] unfolding initRatings_def by simp

lemma update_fresh_append: "k \<notin> fst ` set al \<Longrightarrow> AList.update k v al = al @ [(k, v)]"
  by (induction al) auto

lemma fold_update_fresh:
  "distinct (map movie_id movies) \<Longrightarrow> movie_id ` set movies \<inter> fst ` set acc = {} \<Longrightarrow>
   fold (\<lambda>movie rs. AList.update (movie_id movie) (f movie) rs) movies acc
     = acc @ map (\<lambda>movie. (movie_id movie, f movie)) movies"
proof (induction movies arbitrary: acc)
  case Nil
  then show ?case by simp
next
  case (Cons movie movies)
  have fresh: "movie_id movie \<notin> fst ` set acc"
    using Cons.prems(2) by auto
  have "movie_id ` set movies \<inter> fst ` set (acc @ [(movie_id movie, f movie)]) = {}"
    using Cons.prems by auto
  with Cons.IH [of "acc @ [(movie_id movie, f movie)]"] Cons.prems(1) update_fresh_append [OF fresh]
  show ?case by simp
qed

lemma initRatings_distinct_ids:
  "distinct (map movie_id movies) \<Longrightarrow>
   initRatings movies =
     map (\<lambda>movie. (movie_id movie,
            \<lparr>r_elo = BASE_ELO, r_expected_score = expected_score movie, r_title = title movie\<rparr>)) movies"
  unfolding initRatings_def by (subst fold_update_fresh) simp_all

subsection \<open>The map after the second loop, in closed form\<close>

lemma update_distinct_map:
  "distinct (map fst al) \<Longrightarrow> map_of al k = Some m \<Longrightarrow>
   AList.update k v al = map (\<lambda>(k', m'). (k', if k' = k then v else m')) al"
proof (induction al)
  case Nil
  then show ?case by simp
next
  case (Cons p al)
  show ?case
  proof (cases "fst p = k")
    case True
    with Cons.prems(1) have "k \<notin> fst ` set al" by auto
    then have "map (\<lambda>(k', m'). (k', if k' = k then v else m')) al = al"
      by (induction al) auto
    with True show ?thesis by (cases p) simp
  next
    case False
    with Cons show ?thesis by (cases p) auto
  qed
qed

lemma applySwipe_map:
  assumes "distinct (map fst rs)"
  shows "applySwipe rs s =
    map (\<lambda>(k, m). (k, if k = swipe_movie_id s
                       then m\<lparr>r_elo := r_elo m + K_FACTOR * (actualScore (direction s) - r_expected_score m)\<rparr>
                       else m)) rs"
proof (cases "map_of rs (swipe_movie_id s)")
  case None
  then have "swipe_movie_id s \<notin> fst ` set rs"
    by (simp add: map_of_eq_None_iff)
  then have "map (\<lambda>(k, m). (k, if k = swipe_movie_id s
                       then m\<lparr>r_elo := r_elo m + K_FACTOR * (actualScore (direction s) - r_expected_score m)\<rparr>
                       else m)) rs = rs"
    by (induction rs) auto
  with None show ?thesis by (simp add: applySwipe_def)
next
  case (Some m0)
  have eq: "m = m0" if "(swipe_movie_id s, m) \<in> set rs" for m
    using that Some assms by (metis map_of_is_SomeI option.inject)
  have "applySwipe rs s = map (\<lambda>(k', m'). (k', if k' = swipe_movie_id s
      then m0\<lparr>r_elo := r_elo m0 + K_FACTOR * (actualScore (direction s) - r_expected_score m0)\<rparr> else m')) rs"
    using Some assms by (simp add: applySwipe_def update_distinct_map)
  also have "\<dots> = map (\<lambda>(k, m). (k, if k = swipe_movie_id s
                       then m\<lparr>r_elo := r_elo m + K_FACTOR * (actualScore (direction s) - r_expected_score m)\<rparr>
                       else m)) rs"
    using eq by (intro map_cong) auto
  finally show ?thesis .
qed

lemma applySwipe_keys: "map fst (applySwipe rs s) = map fst rs"
  by (auto simp: applySwipe_def update_keys map_of_eq_None_iff split: option.splits)

lemma applySwipes_keys: "map fst (applySwipes rs ss) = map fst rs"
  unfolding applySwipes_def by (induction ss arbitrary: rs) (simp_all add: applySwipe_keys)

lemma swipeDeltas_Nil: "swipeDeltas k e [] = 0"
  by (simp add: swipeDeltas_def)

lemma swipeDeltas_Cons:
  "swipeDeltas k e (s # ss) =
     (if swipe_movie_id s = k then K_FACTOR * (actualScore (direction s) - e) else 0) + swipeDeltas k e ss"
  by (simp add: swipeDeltas_def)

lemma applySwipes_closed_form:
  "distinct (map fst rs) \<Longrightarrow>
   applySwipes rs ss = map (\<lambda>(k, m). (k, m\<lparr>r_elo := r_elo m + swipeDeltas k (r_expected_score m) ss\<rparr>)) rs"
proof (induction ss arbitrary: rs)
  case Nil
  have "map (\<lambda>(k, m). (k, m\<lparr>r_elo := r_elo m + swipeDeltas k (r_expected_score m) []\<rparr>)) rs = rs"
    by (induction rs) (auto simp: swipeDeltas_Nil)
  then show ?case by (simp add: applySwipes_def)
next
  case (Cons s ss)
  have d: "distinct (map fst (applySwipe rs s))"
    using Cons.prems by (simp add: applySwipe_keys)
  have "applySwipes rs (s # ss) = applySwipes (applySwipe rs s) ss"
    by (simp add: applySwipes_def)
  also have "\<dots> = map (\<lambda>(k, m). (k, m\<lparr>r_elo := r_elo m + swipeDeltas k (r_expected_score m) ss\<rparr>))
                     (applySwipe rs s)"
    by (rule Cons.IH [OF d])
  also have "\<dots> = map (\<lambda>(k, m). (k, m\<lparr>r_elo := r_elo m + swipeDeltas k (r_expected_score m) (s # ss)\<rparr>)) rs"
    unfolding applySwipe_map [OF Cons.prems] map_map
    by (intro map_cong) (auto simp: swipeDeltas_Cons)
  finally show ?case .
qed

lemma calculateMemberElo_closed_form:
  "calculateMemberElo movies ss =
     map (\<lambda>(k, m). \<lparr>e_title = r_title m, e_elo = BASE_ELO + swipeDeltas k (r_expected_score m) ss\<rparr>)
         (initRatings movies)"
  unfolding calculateMemberElo_def applySwipes_closed_form [OF initRatings_distinct] map_map
  by (intro map_cong) (auto dest: initRatings_base)

lemma calculateMemberElo_distinct_ids:
  "distinct (map movie_id movies) \<Longrightarrow>
   calculateMemberElo movies ss =
     map (\<lambda>movie. \<lparr>e_title = title movie,
                   e_elo = BASE_ELO + swipeDeltas (movie_id movie) (expected_score movie) ss\<rparr>) movies"
  by (simp add: calculateMemberElo_closed_form initRatings_distinct_ids)

lemma fold_update_entries:
  "set (fold (\<lambda>movie rs. AList.update (movie_id movie) (f movie) rs) movies acc)
     \<subseteq> set acc \<union> (\<lambda>movie. (movie_id movie, f movie)) ` set movies"
proof (induction movies arbitrary: acc)
  case Nil
  then show ?case by simp
next
  case (Cons movie movies)
  have "set (AList.update (movie_id movie) (f movie) acc) \<subseteq> insert (movie_id movie, f movie) (set acc)"
    by (induction acc) auto
  with Cons.IH [of "AList.update (movie_id movie) (f movie) acc"] show ?case
    by auto
qed

lemma initRatings_entries:
  "set (initRatings movies) \<subseteq>
     (\<lambda>movie. (movie_id movie,
        \<lparr>r_elo = BASE_ELO, r_expected_score = expected_score movie, r_title = title movie\<rparr>)) ` set movies"
  using fold_update_entries [of _ movies "[]"] unfolding initRatings_def by simp

lemma length_initRatings: "length (initRatings movies) = card (movie_id ` set movies)"
proof -
  have "length (initRatings movies) = length (map fst (initRatings movies))" by simp
  also have "\<dots> = card (set (map fst (initRatings movies)))"
    by (rule distinct_card [symmetric]) (rule initRatings_distinct)
  finally show ?thesis by (simp add: initRatings_keys)
qed

lemma swipeDeltas_append:
  "swipeDeltas k e (xs @ ys) = swipeDeltas k e xs + swipeDeltas k e ys"
  by (simp add: swipeDeltas_def)

lemma swipeDeltas_other:
  "k \<notin> swipe_movie_id ` set ss \<Longrightarrow> swipeDeltas k e ss = 0"
  by (induction ss) (auto simp: swipeDeltas_Nil swipeDeltas_Cons)




subsection \<open>What one swipe does\<close>



subsection \<open>The order of the swipes\<close>

text \<open>
  The rounding on known values: the double of 0.1, and the sum of the doubles of 0.1 and
  0.2, which is not the double of 0.3.
\<close>

lemma toDouble_tenth: "toDouble (1 / 10) = 3602879701896397 / 36028797018963968"
  by (simp add: toDouble_def exponentOf_def pow2_def roundTiesToEven_def bitLength.simps Let_def)

lemma dadd_tenth_fifth:
  "dadd (toDouble (1 / 10)) (toDouble (2 / 10)) = 1351079888211149 / 4503599627370496"
  "toDouble (3 / 10) = 5404319552844595 / 18014398509481984"
  by (simp_all add: dadd_def toDouble_def exponentOf_def pow2_def roundTiesToEven_def bitLength.simps Let_def)

text \<open>Ties go to the even significand: above \<open>2 ^ 53\<close> the doubles are the even integers.\<close>

lemma toDouble_ties:
  "toDouble 9007199254740993 = 9007199254740992"
  "toDouble 9007199254740995 = 9007199254740996"
  by (simp_all add: toDouble_def exponentOf_def pow2_def roundTiesToEven_def bitLength.simps Let_def)

text \<open>The steps of two runs over the candidate with prior 0.919.\<close>

lemma toDouble_919: "toDouble (919 / 1000) = 2069404028776743 / 2251799813685248"
  by (simp add:  toDouble_def exponentOf_def pow2_def roundTiesToEven_def bitLength.simps Let_def)

lemma dsub_0_e: "dsub 0 (2069404028776743 / 2251799813685248) = - (2069404028776743 / 2251799813685248)"
  by (simp add: dsub_def toDouble_def exponentOf_def pow2_def roundTiesToEven_def bitLength.simps Let_def)

lemma dsub_1_e: "dsub 1 (2069404028776743 / 2251799813685248) = 182395784908505 / 2251799813685248"
  by (simp add: dsub_def toDouble_def exponentOf_def pow2_def roundTiesToEven_def bitLength.simps Let_def)

lemma dmul_32_L: "dmul 32 (- (2069404028776743 / 2251799813685248)) = - (2069404028776743 / 70368744177664)"
  by (simp add: dmul_def toDouble_def exponentOf_def pow2_def roundTiesToEven_def bitLength.simps Let_def)

lemma dmul_32_R: "dmul 32 (182395784908505 / 2251799813685248) = 182395784908505 / 70368744177664"
  by (simp add: dmul_def toDouble_def exponentOf_def pow2_def roundTiesToEven_def bitLength.simps Let_def)

lemma dadd_step_1: "dadd (1200) (- (2069404028776743 / 70368744177664)) = 2574159030763127 / 2199023255552"
  by (simp add: dadd_def toDouble_def exponentOf_def pow2_def roundTiesToEven_def bitLength.simps Let_def)

lemma dadd_step_2: "dadd (2574159030763127 / 2199023255552) (- (2069404028776743 / 70368744177664)) = 1254745077431927 / 1099511627776"
  by (simp add: dadd_def toDouble_def exponentOf_def pow2_def roundTiesToEven_def bitLength.simps Let_def)

lemma dadd_step_3: "dadd (1254745077431927 / 1099511627776) (- (2069404028776743 / 70368744177664)) = 2444821278964581 / 2199023255552"
  by (simp add: dadd_def toDouble_def exponentOf_def pow2_def roundTiesToEven_def bitLength.simps Let_def)

lemma dadd_step_4: "dadd (2444821278964581 / 2199023255552) (- (2069404028776743 / 70368744177664)) = 595038100766327 / 549755813888"
  by (simp add: dadd_def toDouble_def exponentOf_def pow2_def roundTiesToEven_def bitLength.simps Let_def)

lemma dadd_step_5: "dadd (595038100766327 / 549755813888) (- (2069404028776743 / 70368744177664)) = 2315483527166035 / 2199023255552"
  by (simp add: dadd_def toDouble_def exponentOf_def pow2_def roundTiesToEven_def bitLength.simps Let_def)

lemma dadd_step_6: "dadd (2315483527166035 / 2199023255552) (- (2069404028776743 / 70368744177664)) = 9003258605067047 / 8796093022208"
  by (simp add: dadd_def toDouble_def exponentOf_def pow2_def roundTiesToEven_def bitLength.simps Let_def)

lemma dadd_step_7: "dadd (9003258605067047 / 8796093022208) (182395784908505 / 70368744177664) = 4513029039090305 / 4398046511104"
  by (simp add: dadd_def toDouble_def exponentOf_def pow2_def roundTiesToEven_def bitLength.simps Let_def)

lemma dadd_step_8: "dadd (1200) (182395784908505 / 70368744177664) = 2644527774940791 / 2199023255552"
  by (simp add: dadd_def toDouble_def exponentOf_def pow2_def roundTiesToEven_def bitLength.simps Let_def)

lemma dadd_step_9: "dadd (2644527774940791 / 2199023255552) (- (2069404028776743 / 70368744177664)) = 1289929449520759 / 1099511627776"
  by (simp add: dadd_def toDouble_def exponentOf_def pow2_def roundTiesToEven_def bitLength.simps Let_def)

lemma dadd_step_10: "dadd (1289929449520759 / 1099511627776) (- (2069404028776743 / 70368744177664)) = 2515190023142245 / 2199023255552"
  by (simp add: dadd_def toDouble_def exponentOf_def pow2_def roundTiesToEven_def bitLength.simps Let_def)

lemma dadd_step_11: "dadd (2515190023142245 / 2199023255552) (- (2069404028776743 / 70368744177664)) = 612630286810743 / 549755813888"
  by (simp add: dadd_def toDouble_def exponentOf_def pow2_def roundTiesToEven_def bitLength.simps Let_def)

lemma dadd_step_12: "dadd (612630286810743 / 549755813888) (- (2069404028776743 / 70368744177664)) = 2385852271343699 / 2199023255552"
  by (simp add: dadd_def toDouble_def exponentOf_def pow2_def roundTiesToEven_def bitLength.simps Let_def)

lemma dadd_step_13: "dadd (2385852271343699 / 2199023255552) (- (2069404028776743 / 70368744177664)) = 1160591697722213 / 1099511627776"
  by (simp add: dadd_def toDouble_def exponentOf_def pow2_def roundTiesToEven_def bitLength.simps Let_def)

lemma dadd_step_14: "dadd (1160591697722213 / 1099511627776) (- (2069404028776743 / 70368744177664)) = 2256514519545153 / 2199023255552"
  by (simp add: dadd_def toDouble_def exponentOf_def pow2_def roundTiesToEven_def bitLength.simps Let_def)

lemmas double_steps = toDouble_919 dsub_0_e dsub_1_e dmul_32_L dmul_32_R
  dadd_step_1 dadd_step_2 dadd_step_3 dadd_step_4 dadd_step_5 dadd_step_6 dadd_step_7 dadd_step_8 dadd_step_9 dadd_step_10 dadd_step_11 dadd_step_12 dadd_step_13 dadd_step_14

lemma calculateMemberEloDouble_lefts_then_right: "calculateMemberEloDouble [movieM] [swipeL, swipeL, swipeL, swipeL, swipeL, swipeL, swipeR]
   = [\<lparr>e_title = ''M'', e_elo = 4513029039090305 / 4398046511104\<rparr>]"
  by (simp add: calculateMemberEloDouble_def applySwipesDouble_def applySwipeDouble_def initRatings_def
      movieM_def swipeL_def swipeR_def K_FACTOR_def BASE_ELO_def actualScore_def double_steps)

lemma calculateMemberEloDouble_right_then_lefts: "calculateMemberEloDouble [movieM] [swipeR, swipeL, swipeL, swipeL, swipeL, swipeL, swipeL]
   = [\<lparr>e_title = ''M'', e_elo = 2256514519545153 / 2199023255552\<rparr>]"
  by (simp add: calculateMemberEloDouble_def applySwipesDouble_def applySwipeDouble_def initRatings_def
      movieM_def swipeL_def swipeR_def K_FACTOR_def BASE_ELO_def actualScore_def double_steps)


text \<open>The scorer in double arithmetic when no movie is swiped twice.\<close>

lemma applySwipeDouble_keys: "map fst (applySwipeDouble rs s) = map fst rs"
  by (auto simp: applySwipeDouble_def update_keys map_of_eq_None_iff split: option.splits)

lemma applySwipeDouble_map:
  assumes "distinct (map fst rs)"
  shows "applySwipeDouble rs s =
    map (\<lambda>(k, m). (k, if k = swipe_movie_id s
                       then m\<lparr>r_elo := dadd (r_elo m)
                              (dmul K_FACTOR (dsub (actualScore (direction s)) (r_expected_score m)))\<rparr>
                       else m)) rs"
proof (cases "map_of rs (swipe_movie_id s)")
  case None
  then have "swipe_movie_id s \<notin> fst ` set rs"
    by (simp add: map_of_eq_None_iff)
  then have "map (\<lambda>(k, m). (k, if k = swipe_movie_id s
                       then m\<lparr>r_elo := dadd (r_elo m)
                              (dmul K_FACTOR (dsub (actualScore (direction s)) (r_expected_score m)))\<rparr>
                       else m)) rs = rs"
    by (induction rs) auto
  with None show ?thesis by (simp add: applySwipeDouble_def)
next
  case (Some m0)
  have eq: "m = m0" if "(swipe_movie_id s, m) \<in> set rs" for m
    using that Some assms by (metis map_of_is_SomeI option.inject)
  have "applySwipeDouble rs s = map (\<lambda>(k', m'). (k', if k' = swipe_movie_id s
      then m0\<lparr>r_elo := dadd (r_elo m0)
             (dmul K_FACTOR (dsub (actualScore (direction s)) (r_expected_score m0)))\<rparr> else m')) rs"
    using Some assms by (simp add: applySwipeDouble_def update_distinct_map)
  also have "\<dots> = map (\<lambda>(k, m). (k, if k = swipe_movie_id s
                       then m\<lparr>r_elo := dadd (r_elo m)
                              (dmul K_FACTOR (dsub (actualScore (direction s)) (r_expected_score m)))\<rparr>
                       else m)) rs"
    using eq by (intro map_cong) auto
  finally show ?thesis .
qed

lemma find_Some_mem: "find P xs = Some x \<Longrightarrow> x \<in> set xs \<and> P x"
  by (induction xs) (auto split: if_splits)

lemma find_perm_distinct:
  assumes "distinct (map f xs)" and "mset ys = mset xs"
  shows "find (\<lambda>x. f x = k) ys = find (\<lambda>x. f x = k) xs"
proof -
  have sets: "set ys = set xs" using assms(2) by (rule mset_eq_setD)
  have "mset (map f ys) = mset (map f xs)" using assms(2) by simp
  then have dys: "distinct (map f ys)"
    using assms(1) by (metis mset_eq_imp_distinct_iff)
  show ?thesis
  proof (cases "find (\<lambda>x. f x = k) xs")
    case None
    then have "\<not> (\<exists>x. x \<in> set xs \<and> f x = k)"
      unfolding find_None_iff .
    then have "\<not> (\<exists>x. x \<in> set ys \<and> f x = k)"
      unfolding sets .
    then have "find (\<lambda>x. f x = k) ys = None"
      unfolding find_None_iff .
    with None show ?thesis by simp
  next
    case (Some x)
    then have x: "x \<in> set ys" "f x = k"
      using find_Some_mem [OF Some] sets by auto
    then have "find (\<lambda>x. f x = k) ys \<noteq> None"
      by (auto simp: find_None_iff)
    then obtain y where y: "find (\<lambda>x. f x = k) ys = Some y" by auto
    from find_Some_mem [OF y] have "y \<in> set ys" "f y = k" by auto
    with x dys have "y = x"
      by (auto simp: distinct_map inj_on_def)
    with y Some show ?thesis by simp
  qed
qed

lemma applySwipesDouble_once:
  "distinct (map fst rs) \<Longrightarrow> distinct (map swipe_movie_id ss) \<Longrightarrow>
   applySwipesDouble rs ss =
     map (\<lambda>(k, m). (k, case find (\<lambda>s. swipe_movie_id s = k) ss of
                          None \<Rightarrow> m
                        | Some s \<Rightarrow> m\<lparr>r_elo := dadd (r_elo m)
                              (dmul K_FACTOR (dsub (actualScore (direction s)) (r_expected_score m)))\<rparr>)) rs"
proof (induction ss arbitrary: rs)
  case Nil
  have "map (\<lambda>(k, m). (k, m)) rs = rs" by (induction rs) auto
  then show ?case by (simp add: applySwipesDouble_def)
next
  case (Cons s ss)
  have d: "distinct (map fst (applySwipeDouble rs s))"
    using Cons.prems(1) by (simp add: applySwipeDouble_keys)
  have "swipe_movie_id s \<notin> swipe_movie_id ` set ss"
    using Cons.prems(2) by simp
  then have "\<not> (\<exists>t. t \<in> set ss \<and> swipe_movie_id t = swipe_movie_id s)"
    by (metis imageI)
  then have fresh: "find (\<lambda>t. swipe_movie_id t = swipe_movie_id s) ss = None"
    unfolding find_None_iff .
  have dss: "distinct (map swipe_movie_id ss)"
    using Cons.prems(2) by simp
  have "applySwipesDouble rs (s # ss) = applySwipesDouble (applySwipeDouble rs s) ss"
    by (simp add: applySwipesDouble_def)
  also have "\<dots> = map (\<lambda>(k, m). (k, case find (\<lambda>s. swipe_movie_id s = k) ss of
                          None \<Rightarrow> m
                        | Some s \<Rightarrow> m\<lparr>r_elo := dadd (r_elo m)
                              (dmul K_FACTOR (dsub (actualScore (direction s)) (r_expected_score m)))\<rparr>))
                     (applySwipeDouble rs s)"
    by (rule Cons.IH [OF d dss])
  also have "\<dots> = map (\<lambda>(k, m). (k, case find (\<lambda>t. swipe_movie_id t = k) (s # ss) of
                          None \<Rightarrow> m
                        | Some s \<Rightarrow> m\<lparr>r_elo := dadd (r_elo m)
                              (dmul K_FACTOR (dsub (actualScore (direction s)) (r_expected_score m)))\<rparr>)) rs"
    unfolding applySwipeDouble_map [OF Cons.prems(1)] map_map
    using fresh by (intro map_cong) auto
  finally show ?case .
qed

lemma calculateMemberEloDouble_once:
  assumes "distinct (map swipe_movie_id ss)"
  shows "calculateMemberEloDouble movies ss =
     map (\<lambda>(k, m). \<lparr>e_title = r_title m,
            e_elo = (case find (\<lambda>s. swipe_movie_id s = k) ss of
                       None \<Rightarrow> BASE_ELO
                     | Some s \<Rightarrow> dadd BASE_ELO
                          (dmul K_FACTOR (dsub (actualScore (direction s)) (r_expected_score m))))\<rparr>)
         (initRatings movies)"
  unfolding calculateMemberEloDouble_def applySwipesDouble_once [OF initRatings_distinct assms] map_map
  by (intro map_cong) (auto dest: initRatings_base split: option.splits)

text \<open>
  Claim C2, in the form that holds of the code. When the member's swipe list has at most
  one swipe per movie, the result in double arithmetic is the same for every order of the
  swipes: with pairwise distinct movie ids, a swiped movie has the rating
  \<open>1200 + 32 * (a - e)\<close>, each operation rounded, and every other movie has 1200.
\<close>
theorem calculateMemberEloDouble_one_swipe_per_movie:
  "(distinct (map swipe_movie_id ss) \<and> mset ss' = mset ss \<longrightarrow>
      calculateMemberEloDouble movies ss' = calculateMemberEloDouble movies ss)
   \<and> (distinct (map swipe_movie_id ss) \<and> distinct (map movie_id movies) \<longrightarrow>
      calculateMemberEloDouble movies ss =
        map (\<lambda>movie. \<lparr>e_title = title movie,
               e_elo = (case find (\<lambda>s. swipe_movie_id s = movie_id movie) ss of
                          None \<Rightarrow> 1200
                        | Some s \<Rightarrow> dadd 1200
                            (dmul 32 (dsub (if direction s = Right then 1 else 0) (expected_score movie))))\<rparr>)
            movies)"
proof -
  have 1: "calculateMemberEloDouble movies ss' = calculateMemberEloDouble movies ss"
    if d: "distinct (map swipe_movie_id ss)" and p: "mset ss' = mset ss"
  proof -
    have "mset (map swipe_movie_id ss') = mset (map swipe_movie_id ss)" using p by simp
    then have d': "distinct (map swipe_movie_id ss')"
      using d by (metis mset_eq_imp_distinct_iff)
    show ?thesis
      unfolding calculateMemberEloDouble_once [OF d] calculateMemberEloDouble_once [OF d']
      by (simp add: find_perm_distinct [OF d p])
  qed
  have 2: "calculateMemberEloDouble movies ss =
        map (\<lambda>movie. \<lparr>e_title = title movie,
               e_elo = (case find (\<lambda>s. swipe_movie_id s = movie_id movie) ss of
                          None \<Rightarrow> 1200
                        | Some s \<Rightarrow> dadd 1200
                            (dmul 32 (dsub (if direction s = Right then 1 else 0) (expected_score movie))))\<rparr>)
            movies"
    if "distinct (map swipe_movie_id ss)" and "distinct (map movie_id movies)"
    using that
    by (auto simp: calculateMemberEloDouble_once initRatings_distinct_ids comp_def
        K_FACTOR_def BASE_ELO_def actualScore_def split: option.splits)
  from 1 2 show ?thesis by blast
qed

lemma double_1216: "dadd 1200 (dmul 32 (dsub 1 (1 / 2))) = 1216"
  by (simp add: dadd_def dmul_def dsub_def toDouble_def exponentOf_def pow2_def roundTiesToEven_def
      bitLength.simps Let_def)

theorem calculateMemberEloDouble_one_swipe_per_movie_witness:
  "distinct (map swipe_movie_id
      [\<lparr>swipe_movie_id = ''a'', direction = Right\<rparr>, \<lparr>swipe_movie_id = ''b'', direction = Left\<rparr>])
   \<and> mset [\<lparr>swipe_movie_id = ''b'', direction = Left\<rparr>, \<lparr>swipe_movie_id = ''a'', direction = Right\<rparr>]
       = mset [\<lparr>swipe_movie_id = ''a'', direction = Right\<rparr>, \<lparr>swipe_movie_id = ''b'', direction = Left\<rparr>]
   \<and> distinct (map movie_id [movieA, movieB])
   \<and> calculateMemberEloDouble [movieA, movieB]
        [\<lparr>swipe_movie_id = ''b'', direction = Left\<rparr>, \<lparr>swipe_movie_id = ''a'', direction = Right\<rparr>]
       = calculateMemberEloDouble [movieA, movieB]
        [\<lparr>swipe_movie_id = ''a'', direction = Right\<rparr>, \<lparr>swipe_movie_id = ''b'', direction = Left\<rparr>]
   \<and> calculateMemberEloDouble [movieA, movieB]
        [\<lparr>swipe_movie_id = ''a'', direction = Right\<rparr>, \<lparr>swipe_movie_id = ''b'', direction = Left\<rparr>] ! 0
       = \<lparr>e_title = ''A'', e_elo = 1216\<rparr>"
proof -
  let ?ss = "[\<lparr>swipe_movie_id = ''a'', direction = Right\<rparr>, \<lparr>swipe_movie_id = ''b'', direction = Left\<rparr>]"
  let ?ss' = "[\<lparr>swipe_movie_id = ''b'', direction = Left\<rparr>, \<lparr>swipe_movie_id = ''a'', direction = Right\<rparr>]"
  have d: "distinct (map swipe_movie_id ?ss)" by simp
  have p: "mset ?ss' = mset ?ss" by (simp add: add_mset_commute)
  have m: "distinct (map movie_id [movieA, movieB])" by (simp add: movieA_def movieB_def)
  note t = calculateMemberEloDouble_one_swipe_per_movie [of ?ss ?ss' "[movieA, movieB]"]
  from t d p have 1: "calculateMemberEloDouble [movieA, movieB] ?ss'
      = calculateMemberEloDouble [movieA, movieB] ?ss"
    by blast
  from t d m have "calculateMemberEloDouble [movieA, movieB] ?ss =
        map (\<lambda>movie. \<lparr>e_title = title movie,
               e_elo = (case find (\<lambda>s. swipe_movie_id s = movie_id movie) ?ss of
                          None \<Rightarrow> 1200
                        | Some s \<Rightarrow> dadd 1200
                            (dmul 32 (dsub (if direction s = Right then 1 else 0) (expected_score movie))))\<rparr>)
            [movieA, movieB]"
    by blast
  then have 2: "calculateMemberEloDouble [movieA, movieB] ?ss ! 0 = \<lparr>e_title = ''A'', e_elo = 1216\<rparr>"
    by (simp add: movieA_def double_1216)
  from d p m 1 2 show ?thesis by blast
qed

text \<open>
  With several swipes on one movie the rating is the running sum of doubles in the order
  of the swipes. For the prior 0.919, six left swipes and then a right swipe give
  1026.1440000000005; the right swipe first and then the six left swipes give
  1026.1440000000007.
\<close>

theorem calculateMemberEloDouble_order_counterexample:
  "mset [swipeR, swipeL, swipeL, swipeL, swipeL, swipeL, swipeL]
     = mset [swipeL, swipeL, swipeL, swipeL, swipeL, swipeL, swipeR]
   \<and> calculateMemberEloDouble [movieM] [swipeL, swipeL, swipeL, swipeL, swipeL, swipeL, swipeR]
       = [\<lparr>e_title = ''M'', e_elo = 4513029039090305 / 4398046511104\<rparr>]
   \<and> calculateMemberEloDouble [movieM] [swipeR, swipeL, swipeL, swipeL, swipeL, swipeL, swipeL]
       = [\<lparr>e_title = ''M'', e_elo = 2256514519545153 / 2199023255552\<rparr>]
   \<and> calculateMemberEloDouble [movieM] [swipeR, swipeL, swipeL, swipeL, swipeL, swipeL, swipeL]
       \<noteq> calculateMemberEloDouble [movieM] [swipeL, swipeL, swipeL, swipeL, swipeL, swipeL, swipeR]"
proof -
  have p: "mset [swipeR, swipeL, swipeL, swipeL, swipeL, swipeL, swipeL]
     = mset [swipeL, swipeL, swipeL, swipeL, swipeL, swipeL, swipeR]"
    by (simp add: add_mset_commute)
  have "(4513029039090305 / 4398046511104 :: real) \<noteq> 2256514519545153 / 2199023255552"
    by simp
  with p show ?thesis
    unfolding calculateMemberEloDouble_lefts_then_right calculateMemberEloDouble_right_then_lefts
    by simp
qed

subsection \<open>One entry per movie\<close>

text \<open>
  Claim C5. Whatever the member swiped, the map of ratings holds every movie id of the
  input exactly once, so the result has one entry per movie id and every title in it is the
  title of an input movie. With pairwise distinct movie ids the result lists the titles of
  the movies in their order, one entry per movie, and a movie the member never swiped has
  the base rating 1200.
\<close>
theorem calculateMemberElo_one_entry_per_movie:
  "distinct (map fst (applySwipes (initRatings movies) ss))
   \<and> fst ` set (applySwipes (initRatings movies) ss) = movie_id ` set movies
   \<and> length (calculateMemberElo movies ss) = card (movie_id ` set movies)
   \<and> e_title ` set (calculateMemberElo movies ss) \<subseteq> title ` set movies
   \<and> (distinct (map movie_id movies) \<longrightarrow>
        length (calculateMemberElo movies ss) = length movies
        \<and> map e_title (calculateMemberElo movies ss) = map title movies
        \<and> (\<forall>i<length movies. movie_id (movies ! i) \<notin> swipe_movie_id ` set ss \<longrightarrow>
              calculateMemberElo movies ss ! i = \<lparr>e_title = title (movies ! i), e_elo = 1200\<rparr>))"
proof -
  have keys: "map fst (applySwipes (initRatings movies) ss) = map fst (initRatings movies)"
    by (rule applySwipes_keys)
  have 1: "distinct (map fst (applySwipes (initRatings movies) ss))"
    unfolding keys by (rule initRatings_distinct)
  have "set (map fst (applySwipes (initRatings movies) ss)) = movie_id ` set movies"
    unfolding keys by (simp add: initRatings_keys)
  then have 2: "fst ` set (applySwipes (initRatings movies) ss) = movie_id ` set movies"
    by simp
  have 3: "length (calculateMemberElo movies ss) = card (movie_id ` set movies)"
    by (simp add: calculateMemberElo_closed_form length_initRatings)
  have 4: "e_title ` set (calculateMemberElo movies ss) \<subseteq> title ` set movies"
    using initRatings_entries [of movies]
    by (auto simp: calculateMemberElo_closed_form)
  have 5: "length (calculateMemberElo movies ss) = length movies
        \<and> map e_title (calculateMemberElo movies ss) = map title movies
        \<and> (\<forall>i<length movies. movie_id (movies ! i) \<notin> swipe_movie_id ` set ss \<longrightarrow>
              calculateMemberElo movies ss ! i = \<lparr>e_title = title (movies ! i), e_elo = 1200\<rparr>)"
    if "distinct (map movie_id movies)"
    using that by (simp add: calculateMemberElo_distinct_ids swipeDeltas_other BASE_ELO_def comp_def)
  from 1 2 3 4 5 show ?thesis by blast
qed

theorem calculateMemberElo_one_entry_per_movie_witness:
  "distinct (map movie_id [movieA, movieB])
   \<and> (1::nat) < length [movieA, movieB]
   \<and> movie_id ([movieA, movieB] ! 1) \<notin> swipe_movie_id ` set [\<lparr>swipe_movie_id = ''a'', direction = Left\<rparr>]
   \<and> map e_title (calculateMemberElo [movieA, movieB] [\<lparr>swipe_movie_id = ''a'', direction = Left\<rparr>])
        = [''A'', ''B'']
   \<and> calculateMemberElo [movieA, movieB] [\<lparr>swipe_movie_id = ''a'', direction = Left\<rparr>] ! 1
        = \<lparr>e_title = ''B'', e_elo = 1200\<rparr>"
  using calculateMemberElo_one_entry_per_movie [of "[movieA, movieB]"
      "[\<lparr>swipe_movie_id = ''a'', direction = Left\<rparr>]"]
  by (simp add: movieA_def movieB_def)

subsection \<open>Swipes on unknown movies\<close>

text \<open>
  Claim C6. A swipe whose movie id is not among the movies is ignored: the result is a
  value in any case (the function has no failing branch), and it is the result for the
  swipe list without that swipe.
\<close>
theorem calculateMemberElo_ignores_unknown_movie:
  assumes "swipe_movie_id s \<notin> movie_id ` set movies"
  shows "calculateMemberElo movies (ss1 @ s # ss2) = calculateMemberElo movies (ss1 @ ss2)"
proof -
  have "swipeDeltas k e (ss1 @ s # ss2) = swipeDeltas k e (ss1 @ ss2)"
    if "k \<in> fst ` set (initRatings movies)" for k e
    using that assms by (auto simp: initRatings_keys swipeDeltas_append swipeDeltas_Cons)
  then show ?thesis
    unfolding calculateMemberElo_closed_form
    by (intro map_cong) (auto simp: rev_image_eqI)
qed

theorem calculateMemberElo_ignores_unknown_movie_witness:
  "swipe_movie_id \<lparr>swipe_movie_id = ''zz'', direction = Right\<rparr> \<notin> movie_id ` set [movieA, movieB]
   \<and> calculateMemberElo [movieA, movieB]
        ([\<lparr>swipe_movie_id = ''a'', direction = Right\<rparr>]
          @ \<lparr>swipe_movie_id = ''zz'', direction = Right\<rparr> # [\<lparr>swipe_movie_id = ''b'', direction = Left\<rparr>])
     = [\<lparr>e_title = ''A'', e_elo = 1216\<rparr>, \<lparr>e_title = ''B'', e_elo = 1174.4\<rparr>]"
proof -
  have h: "swipe_movie_id \<lparr>swipe_movie_id = ''zz'', direction = Right\<rparr> \<notin> movie_id ` set [movieA, movieB]"
    by (simp add: movieA_def movieB_def)
  have "calculateMemberElo [movieA, movieB]
          ([\<lparr>swipe_movie_id = ''a'', direction = Right\<rparr>] @ [\<lparr>swipe_movie_id = ''b'', direction = Left\<rparr>])
        = [\<lparr>e_title = ''A'', e_elo = 1216\<rparr>, \<lparr>e_title = ''B'', e_elo = 1174.4\<rparr>]"
    by (simp add: calculateMemberElo_def applySwipes_def applySwipe_def initRatings_def
        movieA_def movieB_def K_FACTOR_def BASE_ELO_def actualScore_def)
  with h calculateMemberElo_ignores_unknown_movie [OF h,
      of "[\<lparr>swipe_movie_id = ''a'', direction = Right\<rparr>]" "[\<lparr>swipe_movie_id = ''b'', direction = Left\<rparr>]"]
  show ?thesis by simp
qed

subsection \<open>A member without swipes\<close>

text \<open>
  Claim C7. For an empty swipe list every entry of the result has the rating 1200, the
  base rating; the result is an ordinary value, one entry per movie id.
\<close>
theorem calculateMemberElo_no_swipes:
  "calculateMemberElo movies [] =
     map (\<lambda>(k, m). \<lparr>e_title = r_title m, e_elo = 1200\<rparr>) (initRatings movies)
   \<and> map e_elo (calculateMemberElo movies []) = replicate (card (movie_id ` set movies)) 1200
   \<and> (distinct (map movie_id movies) \<longrightarrow>
        calculateMemberElo movies [] = map (\<lambda>movie. \<lparr>e_title = title movie, e_elo = 1200\<rparr>) movies)"
proof -
  have 1: "calculateMemberElo movies [] =
     map (\<lambda>(k, m). \<lparr>e_title = r_title m, e_elo = 1200\<rparr>) (initRatings movies)"
    by (simp add: calculateMemberElo_closed_form swipeDeltas_Nil BASE_ELO_def)
  have "map e_elo (calculateMemberElo movies []) = map (\<lambda>p. 1200) (initRatings movies)"
    unfolding 1 by (simp add: comp_def case_prod_beta)
  then have 2: "map e_elo (calculateMemberElo movies []) = replicate (card (movie_id ` set movies)) 1200"
    by (simp add: map_replicate_const length_initRatings)
  have 3: "calculateMemberElo movies [] = map (\<lambda>movie. \<lparr>e_title = title movie, e_elo = 1200\<rparr>) movies"
    if "distinct (map movie_id movies)"
    using that by (simp add: calculateMemberElo_distinct_ids swipeDeltas_Nil BASE_ELO_def)
  from 1 2 3 show ?thesis by blast
qed

theorem calculateMemberElo_no_swipes_witness:
  "distinct (map movie_id [movieA, movieB])
   \<and> calculateMemberElo [movieA, movieB] []
       = [\<lparr>e_title = ''A'', e_elo = 1200\<rparr>, \<lparr>e_title = ''B'', e_elo = 1200\<rparr>]"
  using calculateMemberElo_no_swipes [of "[movieA, movieB]", THEN conjunct2, THEN conjunct2]
  by (simp add: movieA_def movieB_def)

section \<open>Properties of the normalisation\<close>

subsection \<open>Sorting by title\<close>

lemma mset_insertByTitle: "mset (insertByTitle lc a bs) = add_mset a (mset bs)"
  by (induction bs) simp_all

lemma mset_sortByTitle: "mset (sortByTitle lc arr) = mset arr"
  unfolding sortByTitle_def by (induction arr) (simp_all add: mset_insertByTitle)

lemma set_sortByTitle: "set (sortByTitle lc arr) = set arr"
  using mset_sortByTitle [of lc arr] by (metis set_mset_mset)

lemma length_sortByTitle: "length (sortByTitle lc arr) = length arr"
  using mset_sortByTitle [of lc arr] by (metis size_mset)

lemma sorted_insertByTitle:
  assumes "consistentCompare lc"
    and "sorted_wrt (\<lambda>a b. lc (e_title a) (e_title b) \<le> 0) bs"
  shows "sorted_wrt (\<lambda>a b. lc (e_title a) (e_title b) \<le> 0) (insertByTitle lc a bs)"
  using assms(2)
proof (induction bs)
  case Nil
  then show ?case by simp
next
  case (Cons b bs)
  from assms(1) have total: "lc s t \<le> 0 \<or> lc t s \<le> 0" for s t
    unfolding consistentCompare_def by blast
  from assms(1) have trans: "lc s t \<le> 0 \<Longrightarrow> lc t u \<le> 0 \<Longrightarrow> lc s u \<le> 0" for s t u
    unfolding consistentCompare_def by blast
  show ?case
  proof (cases "lc (e_title a) (e_title b) \<le> 0")
    case True
    with Cons.prems trans show ?thesis by auto
  next
    case False
    with total have "lc (e_title b) (e_title a) \<le> 0" by blast
    moreover have "set (insertByTitle lc a bs) = insert a (set bs)"
      using mset_insertByTitle [of lc a bs] by (metis set_mset_add_mset_insert set_mset_mset)
    ultimately show ?thesis using False Cons by auto
  qed
qed

lemma sorted_sortByTitle:
  "consistentCompare lc \<Longrightarrow> sorted_wrt (\<lambda>a b. lc (e_title a) (e_title b) \<le> 0) (sortByTitle lc arr)"
  unfolding sortByTitle_def by (induction arr) (simp_all add: sorted_insertByTitle)

lemma sortByTitle_sorted_id:
  "sorted_wrt (\<lambda>a b. lc (e_title a) (e_title b) \<le> 0) arr \<Longrightarrow> sortByTitle lc arr = arr"
proof (induction arr)
  case Nil
  then show ?case by (simp add: sortByTitle_def)
next
  case (Cons a arr)
  then have "sortByTitle lc arr = arr" by simp
  then have "sortByTitle lc (a # arr) = insertByTitle lc a arr"
    by (simp add: sortByTitle_def)
  also have "\<dots> = a # arr"
    using Cons.prems by (cases arr) simp_all
  finally show ?case .
qed

subsection \<open>Sets in insertion order\<close>

lemma set_fold_setAdd: "set (fold setAdd xs s) = set s \<union> set xs"
  by (induction xs arbitrary: s) (auto simp: setAdd_def)

lemma set_newSet: "set (newSet xs) = set xs"
  by (simp add: newSet_def set_fold_setAdd)

lemma distinct_fold_setAdd: "distinct s \<Longrightarrow> distinct (fold setAdd xs s)"
  by (induction xs arbitrary: s) (auto simp: setAdd_def)

lemma distinct_newSet: "distinct (newSet xs)"
  by (simp add: newSet_def distinct_fold_setAdd)

subsection \<open>Padding one array, and all of them\<close>

lemma mset_padMemberArray:
  "mset (padMemberArray lc allTitles arr) =
     mset arr + mset (map (\<lambda>t. \<lparr>e_title = t, e_elo = BASE_ELO\<rparr>)
                        (filter (\<lambda>t. t \<notin> set (map e_title arr)) allTitles))"
  by (simp add: padMemberArray_def mset_sortByTitle set_newSet)

lemma titles_padMemberArray:
  "set (map e_title (padMemberArray lc allTitles arr)) = set (map e_title arr) \<union> set allTitles"
proof -
  have "set (padMemberArray lc allTitles arr) =
      set arr \<union> (\<lambda>t. \<lparr>e_title = t, e_elo = BASE_ELO\<rparr>) ` {t \<in> set allTitles. t \<notin> e_title ` set arr}"
    by (simp add: padMemberArray_def set_sortByTitle set_newSet)
  then show ?thesis by (auto simp: image_Un image_image)
qed


lemma padMemberArray_complete:
  "set allTitles \<subseteq> set (map e_title arr) \<Longrightarrow> padMemberArray lc allTitles arr = sortByTitle lc arr"
proof -
  assume "set allTitles \<subseteq> set (map e_title arr)"
  then have "filter (\<lambda>t. t \<notin> set (map e_title arr)) allTitles = []"
    by (auto simp: filter_empty_conv)
  then show ?thesis by (simp add: padMemberArray_def set_newSet)
qed

lemma normalize_Cons:
  "normalizeMemberEloArrays lc (first # rest) =
     map (padMemberArray lc (newSet (map e_title first))) (first # rest)"
  by (simp add: normalizeMemberEloArrays_def Let_def)

lemma normalize_nth:
  "i < length arrays \<Longrightarrow>
   normalizeMemberEloArrays lc arrays ! i =
     padMemberArray lc (newSet (map e_title (hd arrays))) (arrays ! i)"
  by (cases arrays) (simp_all add: normalizeMemberEloArrays_def Let_def del: list.map)

lemma length_normalize: "length (normalizeMemberEloArrays lc arrays) = length arrays"
  by (cases arrays) (simp_all add: normalizeMemberEloArrays_def Let_def)

subsection \<open>The comparator by character codes is consistent\<close>

lemma codeUnitCompare_total: "codeUnitCompare a b \<le> 0 \<or> codeUnitCompare b a \<le> 0"
  by (induction a b rule: codeUnitCompare.induct) auto

lemma codeUnitCompare_trans:
  "codeUnitCompare a b \<le> 0 \<Longrightarrow> codeUnitCompare b c \<le> 0 \<Longrightarrow> codeUnitCompare a c \<le> 0"
proof (induction a c arbitrary: b rule: codeUnitCompare.induct)
  case 1
  then show ?case by simp
next
  case (2 y ys)
  then show ?case by simp
next
  case (3 x xs)
  then show ?case by (cases b) (auto split: if_splits)
next
  case (4 x xs y ys)
  show ?case
  proof (cases b)
    case Nil
    with 4 show ?thesis by simp
  next
    case (Cons z zs)
    with 4 show ?thesis by (auto split: if_splits)
  qed
qed

lemma consistentCompare_codeUnitCompare: "consistentCompare codeUnitCompare"
  unfolding consistentCompare_def
  using codeUnitCompare_total codeUnitCompare_trans by blast

subsection \<open>Arrays of the scorer\<close>




lemma normalize_noop:
  assumes "i < length arrays"
    and "set (map e_title (hd arrays)) \<subseteq> set (map e_title (arrays ! i))"
    and "sorted_wrt (\<lambda>a b. lc (e_title a) (e_title b) \<le> 0) (arrays ! i)"
  shows "normalizeMemberEloArrays lc arrays ! i = arrays ! i"
  using assms by (simp add: normalize_nth padMemberArray_complete set_newSet sortByTitle_sorted_id)

lemma normalize_noop_all:
  assumes "\<forall>v\<in>set arrays. set (map e_title (hd arrays)) \<subseteq> set (map e_title v)
             \<and> sorted_wrt (\<lambda>a b. lc (e_title a) (e_title b) \<le> 0) v"
  shows "normalizeMemberEloArrays lc arrays = arrays"
proof (rule nth_equalityI)
  show "length (normalizeMemberEloArrays lc arrays) = length arrays"
    by (rule length_normalize)
next
  fix i
  assume "i < length (normalizeMemberEloArrays lc arrays)"
  then have i: "i < length arrays" by (simp add: length_normalize)
  with assms show "normalizeMemberEloArrays lc arrays ! i = arrays ! i"
    by (intro normalize_noop) auto
qed

lemma normalize_idempotent:
  assumes "consistentCompare lc"
  shows "normalizeMemberEloArrays lc (normalizeMemberEloArrays lc arrays) = normalizeMemberEloArrays lc arrays"
proof (cases arrays)
  case Nil
  then show ?thesis by (simp add: normalizeMemberEloArrays_def)
next
  case (Cons first rest)
  let ?T = "newSet (map e_title first)"
  have hd: "hd (normalizeMemberEloArrays lc arrays) = padMemberArray lc ?T first"
    unfolding Cons normalize_Cons by simp
  show ?thesis
  proof (rule normalize_noop_all, rule ballI)
    fix v'
    assume "v' \<in> set (normalizeMemberEloArrays lc arrays)"
    then obtain v where v': "v' = padMemberArray lc ?T v"
      unfolding Cons normalize_Cons by auto
    have "set (map e_title (hd (normalizeMemberEloArrays lc arrays))) \<subseteq> set (map e_title v')"
      unfolding hd v' titles_padMemberArray set_newSet by auto
    moreover have "sorted_wrt (\<lambda>a b. lc (e_title a) (e_title b) \<le> 0) v'"
      unfolding v' padMemberArray_def Let_def by (rule sorted_sortByTitle [OF assms])
    ultimately show "set (map e_title (hd (normalizeMemberEloArrays lc arrays))) \<subseteq> set (map e_title v')
        \<and> sorted_wrt (\<lambda>a b. lc (e_title a) (e_title b) \<le> 0) v'"
      by blast
  qed
qed


subsection \<open>The order of the titles in the arrays of the scorer\<close>










subsection \<open>What the normalisation produces\<close>



subsection \<open>What the normalisation keeps\<close>

text \<open>
  Claim C4. Every entry of a member array, title and rating, is in the normalised array
  as often as before, and sorting alone only reorders the entries. For a consistent
  comparator, an array that has all titles of the first array and is sorted by title comes
  out unchanged, in particular a sorted array alone is normalised to itself, and
  normalising twice is normalising once.
\<close>
theorem normalize_keeps_ratings:
  "(\<forall>i<length arrays. mset (arrays ! i) \<subseteq># mset (normalizeMemberEloArrays lc arrays ! i))
   \<and> mset (sortByTitle lc v) = mset v
   \<and> (consistentCompare lc \<longrightarrow>
        (\<forall>i<length arrays.
           set (map e_title (hd arrays)) \<subseteq> set (map e_title (arrays ! i))
           \<and> sorted_wrt (\<lambda>a b. lc (e_title a) (e_title b) \<le> 0) (arrays ! i)
           \<longrightarrow> normalizeMemberEloArrays lc arrays ! i = arrays ! i)
        \<and> (sorted_wrt (\<lambda>a b. lc (e_title a) (e_title b) \<le> 0) v \<longrightarrow>
             normalizeMemberEloArrays lc [v] = [v])
        \<and> normalizeMemberEloArrays lc (normalizeMemberEloArrays lc arrays)
             = normalizeMemberEloArrays lc arrays)"
proof -
  have 1: "\<forall>i<length arrays. mset (arrays ! i) \<subseteq># mset (normalizeMemberEloArrays lc arrays ! i)"
    by (simp add: normalize_nth mset_padMemberArray del: mset_map)
  have 2: "mset (sortByTitle lc v) = mset v"
    by (rule mset_sortByTitle)
  have 3: "\<forall>i<length arrays.
         set (map e_title (hd arrays)) \<subseteq> set (map e_title (arrays ! i))
         \<and> sorted_wrt (\<lambda>a b. lc (e_title a) (e_title b) \<le> 0) (arrays ! i)
         \<longrightarrow> normalizeMemberEloArrays lc arrays ! i = arrays ! i"
    using normalize_noop [of _ arrays lc] by blast
  have 4: "sorted_wrt (\<lambda>a b. lc (e_title a) (e_title b) \<le> 0) v \<longrightarrow> normalizeMemberEloArrays lc [v] = [v]"
    using normalize_noop_all [of "[v]" lc] by simp
  have 5: "consistentCompare lc \<longrightarrow>
        normalizeMemberEloArrays lc (normalizeMemberEloArrays lc arrays) = normalizeMemberEloArrays lc arrays"
    using normalize_idempotent by blast
  from 1 2 3 4 5 show ?thesis by blast
qed

theorem normalize_keeps_ratings_witness:
  "(1::nat) < length [member1Array, member2Padded]
   \<and> set (map e_title (hd [member1Array, member2Padded])) \<subseteq> set (map e_title ([member1Array, member2Padded] ! 1))
   \<and> sorted_wrt (\<lambda>a b. codeUnitCompare (e_title a) (e_title b) \<le> 0) ([member1Array, member2Padded] ! 1)
   \<and> consistentCompare codeUnitCompare
   \<and> mset ([member1Array, member2Padded] ! 1)
        \<subseteq># mset (normalizeMemberEloArrays codeUnitCompare [member1Array, member2Padded] ! 1)
   \<and> normalizeMemberEloArrays codeUnitCompare [member1Array, member2Padded] ! 1 = member2Padded
   \<and> normalizeMemberEloArrays codeUnitCompare
        (normalizeMemberEloArrays codeUnitCompare [member1Array, member2Padded])
       = normalizeMemberEloArrays codeUnitCompare [member1Array, member2Padded]"
proof -
  have len: "(1::nat) < length [member1Array, member2Padded]" by simp
  have complete: "set (map e_title (hd [member1Array, member2Padded]))
      \<subseteq> set (map e_title ([member1Array, member2Padded] ! 1))"
    by (simp add: member1Array_def member2Padded_def)
  have sorted: "sorted_wrt (\<lambda>a b. codeUnitCompare (e_title a) (e_title b) \<le> 0)
      ([member1Array, member2Padded] ! 1)"
    by (simp add: member2Padded_def)
  note t = normalize_keeps_ratings [of "[member1Array, member2Padded]" codeUnitCompare member2Padded]
  from t len have 1: "mset ([member1Array, member2Padded] ! 1)
        \<subseteq># mset (normalizeMemberEloArrays codeUnitCompare [member1Array, member2Padded] ! 1)"
    by blast
  from t len complete sorted consistentCompare_codeUnitCompare
  have "normalizeMemberEloArrays codeUnitCompare [member1Array, member2Padded] ! 1
      = [member1Array, member2Padded] ! 1"
    by blast
  then have 2: "normalizeMemberEloArrays codeUnitCompare [member1Array, member2Padded] ! 1 = member2Padded"
    by simp
  from t consistentCompare_codeUnitCompare
  have 3: "normalizeMemberEloArrays codeUnitCompare
        (normalizeMemberEloArrays codeUnitCompare [member1Array, member2Padded])
       = normalizeMemberEloArrays codeUnitCompare [member1Array, member2Padded]"
    by blast
  from len complete sorted consistentCompare_codeUnitCompare 1 2 3 show ?thesis by blast
qed

section \<open>Properties of the aggregator\<close>

lemma mset_ratingsOfTitle:
  "mset (ratingsOfTitle t vectors) =
     (\<Sum>v\<in>#mset vectors. mset (map e_elo (filter (\<lambda>m. e_title m = t) v)))"
  unfolding ratingsOfTitle_def mset_concat
  by (simp add: comp_def flip: sum_mset_sum_list)

lemma ratingsOfTitle_perm:
  assumes "mset vectors' = mset vectors"
  shows "sum_list (ratingsOfTitle t vectors') = sum_list (ratingsOfTitle t vectors)"
    and "length (ratingsOfTitle t vectors') = length (ratingsOfTitle t vectors)"
proof -
  have m: "mset (ratingsOfTitle t vectors') = mset (ratingsOfTitle t vectors)"
    by (simp add: mset_ratingsOfTitle assms)
  from m show "sum_list (ratingsOfTitle t vectors') = sum_list (ratingsOfTitle t vectors)"
    by (metis sum_mset_sum_list)
  from m show "length (ratingsOfTitle t vectors') = length (ratingsOfTitle t vectors)"
    by (metis size_mset)
qed

lemma checkAll_by_titles:
  "checkAll (v # vs) =
     map (\<lambda>t. \<lparr>e_title = t,
               e_elo = sum_list (ratingsOfTitle t (v # vs)) / real (length (ratingsOfTitle t (v # vs)))\<rparr>)
         (map e_title v)"
  by (simp add: checkAll_def comp_def)

text \<open>
  Claim C9. For member vectors that all list the same titles in the same order, the
  aggregator's result does not depend on the order in which the vectors are passed:
  permuting the list of vectors leaves the consensus vector unchanged.
\<close>
theorem checkAll_anonymous:
  assumes "mset vectors' = mset vectors"
    and "\<forall>v\<in>set vectors. \<forall>w\<in>set vectors. map e_title v = map e_title w"
  shows "checkAll vectors' = checkAll vectors"
proof (cases vectors)
  case Nil
  with assms(1) show ?thesis by simp
next
  case (Cons v vs)
  from assms(1) Cons obtain v' vs' where Cons': "vectors' = v' # vs'"
    by (cases vectors') auto
  from assms(1) have "set vectors' = set vectors" by (rule mset_eq_setD)
  with Cons Cons' assms(2) have titles: "map e_title v' = map e_title v"
    by auto
  show ?thesis
    unfolding Cons Cons' checkAll_by_titles titles
    using ratingsOfTitle_perm [OF assms(1)] unfolding Cons Cons'
    by simp
qed

theorem checkAll_anonymous_witness:
  "mset [member2Padded, member1Array] = mset [member1Array, member2Padded]
   \<and> map e_title member1Array = map e_title member2Padded
   \<and> checkAll [member2Padded, member1Array] = checkAll [member1Array, member2Padded]"
proof -
  have p: "mset [member2Padded, member1Array] = mset [member1Array, member2Padded]"
    by (simp add: add_mset_commute)
  have e: "map e_title member1Array = map e_title member2Padded"
    by (simp add: member1Array_def member2Padded_def)
  then have t: "\<forall>v\<in>set [member1Array, member2Padded]. \<forall>w\<in>set [member1Array, member2Padded].
         map e_title v = map e_title w"
    by simp
  from p e checkAll_anonymous [OF p t] show ?thesis by blast
qed

text \<open>
  The worked example: the mean of the two members' ratings, 1200 for A and 1187.2 for B.
\<close>

lemma checkAll_scenario:
  "checkAll [member1Array, member2Padded]
     = [\<lparr>e_title = ''A'', e_elo = 1200\<rparr>, \<lparr>e_title = ''B'', e_elo = 1187.2\<rparr>]"
  by (simp add: checkAll_def ratingsOfTitle_def member1Array_def member2Padded_def)

section \<open>Properties of the stored ratings\<close>

lemma fold_upd_None:
  "fold (\<lambda>m eloMap. eloMap(e_title m \<mapsto> e_elo m)) agg acc t = None
     \<longleftrightarrow> acc t = None \<and> t \<notin> e_title ` set agg"
  by (induction agg arbitrary: acc) auto

lemma eloMapOf_None: "eloMapOf agg t = None \<longleftrightarrow> t \<notin> e_title ` set agg"
  by (simp add: eloMapOf_def fold_upd_None)

lemma finalElo_cases:
  "finalElo aggregated existing =
     (case aggregated of
        Some x \<Rightarrow> if x \<noteq> 0 then x
                  else (case existing of Some y \<Rightarrow> if y \<noteq> 0 then y else 1200 | None \<Rightarrow> 1200)
      | None \<Rightarrow> (case existing of Some y \<Rightarrow> if y \<noteq> 0 then y else 1200 | None \<Rightarrow> 1200))"
  by (simp add: finalElo_def js_or_def truthy_def split: option.splits)

lemma finalElo_nonzero: "finalElo aggregated existing \<noteq> 0"
  by (simp add: finalElo_cases split: option.splits)

text \<open>
  Claim C10. The update issued for a movie carries the aggregated rating of its title
  when there is one other than 0. When the title has no aggregated rating, or the rating 0,
  the update carries the movie's present \<^verbatim>\<open>elo_rating\<close> if that is not 0, and 1200
  otherwise; the same holds of the chain \<^verbatim>\<open>||\<close> itself when the present rating is
  missing. The rating written is never 0.
\<close>
theorem storeFinalElos_fallback:
  "length (storeFinalElos agg movies) = length movies
   \<and> (\<forall>i<length movies.
        fst (storeFinalElos agg movies ! i) = movie_id (movies ! i)
        \<and> (\<forall>x. eloMapOf agg (title (movies ! i)) = Some x \<and> x \<noteq> 0 \<longrightarrow>
              snd (storeFinalElos agg movies ! i) = x)
        \<and> (title (movies ! i) \<notin> e_title ` set agg \<or> eloMapOf agg (title (movies ! i)) = Some 0 \<longrightarrow>
              snd (storeFinalElos agg movies ! i)
                = (if elo_rating (movies ! i) \<noteq> 0 then elo_rating (movies ! i) else 1200))
        \<and> snd (storeFinalElos agg movies ! i) \<noteq> 0)
   \<and> ((aggregated = None \<or> aggregated = Some 0) \<longrightarrow>
        finalElo aggregated existing
          = (case existing of None \<Rightarrow> 1200 | Some y \<Rightarrow> if y \<noteq> 0 then y else 1200))
   \<and> finalElo aggregated existing \<noteq> 0"
proof -
  have 1: "length (storeFinalElos agg movies) = length movies"
    by (simp add: storeFinalElos_def)
  have 2: "\<forall>i<length movies.
        fst (storeFinalElos agg movies ! i) = movie_id (movies ! i)
        \<and> (\<forall>x. eloMapOf agg (title (movies ! i)) = Some x \<and> x \<noteq> 0 \<longrightarrow>
              snd (storeFinalElos agg movies ! i) = x)
        \<and> (title (movies ! i) \<notin> e_title ` set agg \<or> eloMapOf agg (title (movies ! i)) = Some 0 \<longrightarrow>
              snd (storeFinalElos agg movies ! i)
                = (if elo_rating (movies ! i) \<noteq> 0 then elo_rating (movies ! i) else 1200))
        \<and> snd (storeFinalElos agg movies ! i) \<noteq> 0"
  proof (intro allI impI)
    fix i
    assume i: "i < length movies"
    then have w: "storeFinalElos agg movies ! i =
        (movie_id (movies ! i), finalElo (eloMapOf agg (title (movies ! i))) (Some (elo_rating (movies ! i))))"
      by (simp add: storeFinalElos_def)
    have none: "eloMapOf agg (title (movies ! i)) = None" if "title (movies ! i) \<notin> e_title ` set agg"
      using that by (simp add: eloMapOf_None)
    show "fst (storeFinalElos agg movies ! i) = movie_id (movies ! i)
        \<and> (\<forall>x. eloMapOf agg (title (movies ! i)) = Some x \<and> x \<noteq> 0 \<longrightarrow>
              snd (storeFinalElos agg movies ! i) = x)
        \<and> (title (movies ! i) \<notin> e_title ` set agg \<or> eloMapOf agg (title (movies ! i)) = Some 0 \<longrightarrow>
              snd (storeFinalElos agg movies ! i)
                = (if elo_rating (movies ! i) \<noteq> 0 then elo_rating (movies ! i) else 1200))
        \<and> snd (storeFinalElos agg movies ! i) \<noteq> 0"
      unfolding w using none finalElo_nonzero [of "eloMapOf agg (title (movies ! i))" "Some (elo_rating (movies ! i))"]
      by (auto simp: finalElo_cases split: option.splits)
  qed
  have 3: "(aggregated = None \<or> aggregated = Some 0) \<longrightarrow>
        finalElo aggregated existing
          = (case existing of None \<Rightarrow> 1200 | Some y \<Rightarrow> if y \<noteq> 0 then y else 1200)"
    by (auto simp: finalElo_cases split: option.splits)
  from 1 2 3 finalElo_nonzero show ?thesis by blast
qed

theorem storeFinalElos_fallback_witness:
  "(0::nat) < length [movieA, movieB]
   \<and> eloMapOf [\<lparr>e_title = ''A'', e_elo = 0\<rparr>] (title ([movieA, movieB] ! 0)) = Some 0
   \<and> (1::nat) < length [movieA, movieB]
   \<and> title ([movieA, movieB] ! 1) \<notin> e_title ` set [\<lparr>e_title = ''A'', e_elo = 0\<rparr>]
   \<and> storeFinalElos [\<lparr>e_title = ''A'', e_elo = 0\<rparr>] [movieA, movieB] ! 0 = (''a'', 1200)
   \<and> storeFinalElos [\<lparr>e_title = ''A'', e_elo = 0\<rparr>] [movieA, movieB] ! 1 = (''b'', 1200)
   \<and> finalElo (Some 0) None = 1200"
proof -
  note t = storeFinalElos_fallback [of "[\<lparr>e_title = ''A'', e_elo = 0\<rparr>]" "[movieA, movieB]" "Some 0" None]
  have l0: "(0::nat) < length [movieA, movieB]" and l1: "(1::nat) < length [movieA, movieB]"
    by simp_all
  have z: "eloMapOf [\<lparr>e_title = ''A'', e_elo = 0\<rparr>] (title ([movieA, movieB] ! 0)) = Some 0"
    by (simp add: eloMapOf_def movieA_def)
  have n: "title ([movieA, movieB] ! 1) \<notin> e_title ` set [\<lparr>e_title = ''A'', e_elo = 0\<rparr>]"
    by (simp add: movieB_def)
  from t l0 z have "fst (storeFinalElos [\<lparr>e_title = ''A'', e_elo = 0\<rparr>] [movieA, movieB] ! 0)
        = movie_id ([movieA, movieB] ! 0)
      \<and> snd (storeFinalElos [\<lparr>e_title = ''A'', e_elo = 0\<rparr>] [movieA, movieB] ! 0)
        = (if elo_rating ([movieA, movieB] ! 0) \<noteq> 0 then elo_rating ([movieA, movieB] ! 0) else 1200)"
    by blast
  then have a: "storeFinalElos [\<lparr>e_title = ''A'', e_elo = 0\<rparr>] [movieA, movieB] ! 0 = (''a'', 1200)"
    by (simp add: movieA_def prod_eq_iff)
  from t l1 n have "fst (storeFinalElos [\<lparr>e_title = ''A'', e_elo = 0\<rparr>] [movieA, movieB] ! 1)
        = movie_id ([movieA, movieB] ! 1)
      \<and> snd (storeFinalElos [\<lparr>e_title = ''A'', e_elo = 0\<rparr>] [movieA, movieB] ! 1)
        = (if elo_rating ([movieA, movieB] ! 1) \<noteq> 0 then elo_rating ([movieA, movieB] ! 1) else 1200)"
    by blast
  then have b: "storeFinalElos [\<lparr>e_title = ''A'', e_elo = 0\<rparr>] [movieA, movieB] ! 1 = (''b'', 1200)"
    by (simp add: movieB_def prod_eq_iff)
  from t have c: "finalElo (Some 0) None = 1200" by simp
  from l0 z l1 n a b c show ?thesis by blast
qed

section \<open>Properties of the ranking query\<close>

lemma getPartyRankings_data: "getPartyRankings \<lparr>data = Some rows, error = None\<rparr> = Inr rows"
  by (simp add: getPartyRankings_def)

lemma answersRankingQuery_swap:
  assumes "answersRankingQuery party_movies partyId (xs @ a # b # ys)"
    and "elo_rating a = elo_rating b"
  shows "answersRankingQuery party_movies partyId (xs @ b # a # ys)"
proof -
  have m: "mset (xs @ b # a # ys) = mset (xs @ a # b # ys)"
    by (simp add: add_mset_commute)
  from assms(1) have s: "sorted_wrt (\<lambda>a b. elo_rating a \<ge> elo_rating b) (xs @ a # b # ys)"
    unfolding answersRankingQuery_def by blast
  have "sorted_wrt (\<lambda>a b. elo_rating a \<ge> elo_rating b) (xs @ b # a # ys)"
    using s assms(2) by (auto simp: sorted_wrt_append)
  with assms(1) m show ?thesis
    unfolding answersRankingQuery_def by (simp only:) 
qed

lemma answersRankingQuery_example:
  "answersRankingQuery [movieA, movieB] ''p'' [movieA, movieB]"
proof -
  have "filter (\<lambda>row. party_id row = ''p'') [movieA, movieB] = [movieA, movieB]"
    by (simp add: movieA_def movieB_def)
  moreover have "sorted_wrt (\<lambda>a b. elo_rating a \<ge> elo_rating b) [movieA, movieB]"
    by (simp add: movieA_def movieB_def)
  ultimately show ?thesis
    unfolding answersRankingQuery_def by (simp only:)
qed

text \<open>
  Claim C8, in the form that holds of the code. The function returns the rows of the
  reply as they came. When the reply answers the query, the ranking holds the rows of the
  party ordered by rating from high to low; and when two neighbours in it have equal
  ratings, the reply with the two exchanged answers the query as well and is returned as it
  is. The order of equal ratings is the database's, not one of the titles.
\<close>
theorem getPartyRankings_returns_reply:
  "getPartyRankings \<lparr>data = Some rows, error = None\<rparr> = Inr rows
   \<and> (answersRankingQuery party_movies partyId rows \<longrightarrow>
        (\<exists>ranking. getPartyRankings \<lparr>data = Some rows, error = None\<rparr> = Inr ranking
           \<and> mset ranking = mset (filter (\<lambda>row. party_id row = partyId) party_movies)
           \<and> sorted_wrt (\<lambda>a b. elo_rating a \<ge> elo_rating b) ranking))
   \<and> (answersRankingQuery party_movies partyId (xs @ a # b # ys) \<and> elo_rating a = elo_rating b \<longrightarrow>
        answersRankingQuery party_movies partyId (xs @ b # a # ys)
        \<and> getPartyRankings \<lparr>data = Some (xs @ a # b # ys), error = None\<rparr> = Inr (xs @ a # b # ys)
        \<and> getPartyRankings \<lparr>data = Some (xs @ b # a # ys), error = None\<rparr> = Inr (xs @ b # a # ys))"
proof -
  have 2: "answersRankingQuery party_movies partyId rows \<longrightarrow>
        (\<exists>ranking. getPartyRankings \<lparr>data = Some rows, error = None\<rparr> = Inr ranking
           \<and> mset ranking = mset (filter (\<lambda>row. party_id row = partyId) party_movies)
           \<and> sorted_wrt (\<lambda>a b. elo_rating a \<ge> elo_rating b) ranking)"
    unfolding getPartyRankings_data answersRankingQuery_def by blast
  from 2 getPartyRankings_data answersRankingQuery_swap show ?thesis by blast
qed

theorem getPartyRankings_returns_reply_witness:
  "answersRankingQuery [movieA, movieB] ''p'' ([] @ movieA # movieB # [])
   \<and> elo_rating movieA = elo_rating movieB
   \<and> answersRankingQuery [movieA, movieB] ''p'' ([] @ movieB # movieA # [])
   \<and> getPartyRankings \<lparr>data = Some ([] @ movieB # movieA # []), error = None\<rparr>
       = Inr ([] @ movieB # movieA # [])"
proof -
  have h: "answersRankingQuery [movieA, movieB] ''p'' ([] @ movieA # movieB # [])"
    using answersRankingQuery_example by simp
  have e: "elo_rating movieA = elo_rating movieB"
    by (simp add: movieA_def movieB_def)
  from getPartyRankings_returns_reply [of "[movieA, movieB]" "[movieA, movieB]" "''p''" "[]" movieA movieB "[]"] h e
  show ?thesis by blast
qed

text \<open>
  A and B both have the rating 1200. The reply B, A answers the query, and the ranking
  returned is B, A, against the order of the titles.
\<close>

theorem getPartyRankings_tie_counterexample:
  "answersRankingQuery [movieA, movieB] ''p'' [movieB, movieA]
   \<and> getPartyRankings \<lparr>data = Some [movieB, movieA], error = None\<rparr> = Inr [movieB, movieA]
   \<and> elo_rating movieB = elo_rating movieA
   \<and> \<not> codeUnitCompare (title movieB) (title movieA) \<le> 0"
proof -
  have "answersRankingQuery [movieA, movieB] ''p'' ([] @ movieB # movieA # [])"
    by (rule answersRankingQuery_swap [of _ _ "[]" movieA movieB "[]"])
      (simp_all add: answersRankingQuery_example, simp add: movieA_def movieB_def)
  then have 1: "answersRankingQuery [movieA, movieB] ''p'' [movieB, movieA]" by simp
  have 2: "elo_rating movieB = elo_rating movieA" by (simp add: movieA_def movieB_def)
  have 3: "\<not> codeUnitCompare (title movieB) (title movieA) \<le> 0" by (simp add: movieA_def movieB_def)
  from 1 2 3 getPartyRankings_data show ?thesis by blast
qed

end
